theory Spec2Isabelle
  imports Complex_Main
begin

section \<open>Go values used by the rule engine\<close>

text \<open>
  A Go \<^verbatim>\<open>string\<close> is a sequence of bytes; \<open>string\<close> (a list of 8-bit characters) is
  the same thing, and \<open>length\<close> is Go's \<^verbatim>\<open>len\<close>. Go's \<^verbatim>\<open>int\<close> is modelled by \<open>int\<close>:
  the code only compares such values, it never does arithmetic on them. A \<^verbatim>\<open>float64\<close>
  is modelled by \<open>real\<close>: rounding is not part of the model, and every concrete value
  evaluated below (0, 1/2, 1, 3/2, 2) is one that the float operations produce exactly.

  A run-time panic is a value of type \<open>panic\<close>; a function that can panic returns
  \<open>panic + 'a\<close>.
\<close>

datatype panic = NilPointerDereference | IndexOutOfRange

text \<open>Indexing a slice with an \<^verbatim>\<open>int\<close>: Go panics outside \<open>0 \<le> i < len xs\<close>.\<close>

definition index :: "'a list \<Rightarrow> int \<Rightarrow> panic + 'a" where
  "index xs i = (if 0 \<le> i \<and> i < int (length xs) then Inr (xs ! nat i) else Inl IndexOutOfRange)"

subsection \<open>Compiled regular expressions\<close>

text \<open>
  \<^verbatim>\<open>regexp.Regexp\<close> belongs to Go's standard library, so a compiled expression is
  taken as given: its source text (what \<^verbatim>\<open>String()\<close> returns) and its
  \<^verbatim>\<open>FindStringSubmatch\<close>, where the empty list stands for the \<^verbatim>\<open>nil\<close> slice returned
  when nothing matches. \<^verbatim>\<open>FindString\<close> is the text of the leftmost match, which is
  element 0 of \<^verbatim>\<open>FindStringSubmatch\<close>, and the empty string when nothing matches.
  A \<^verbatim>\<open>*regexp.Regexp\<close> is a \<open>Regexp option\<close>, \<open>None\<close> being \<^verbatim>\<open>nil\<close>.
\<close>

record Regexp =
  expr :: string
  FindStringSubmatch :: "string \<Rightarrow> string list"

definition FindString :: "Regexp \<Rightarrow> string \<Rightarrow> string" where
  "FindString re s = (case FindStringSubmatch re s of [] \<Rightarrow> '''' | g # _ \<Rightarrow> g)"

text \<open>
  Concrete expressions for evaluating the code: patterns built from literal text (free of
  metacharacters) and capture groups around literal text, such as \<^verbatim>\<open>key-(abab)\<close>. Such a
  pattern matches exactly one string, so it matches a subject iff that string occurs in
  it, and every capture group holds its own literal.
\<close>

datatype piece = Lit string | Cap string

fun piece_text :: "piece \<Rightarrow> string" where
  "piece_text (Lit s) = s"
| "piece_text (Cap s) = s"

fun piece_source :: "piece \<Rightarrow> string" where
  "piece_source (Lit s) = s"
| "piece_source (Cap s) = ''('' @ s @ '')''"

fun piece_groups :: "piece list \<Rightarrow> string list" where
  "piece_groups [] = []"
| "piece_groups (Lit s # ps) = piece_groups ps"
| "piece_groups (Cap s # ps) = s # piece_groups ps"

fun has_prefix :: "string \<Rightarrow> string \<Rightarrow> bool" where
  "has_prefix s [] = True"
| "has_prefix [] (p # ps) = False"
| "has_prefix (c # cs) (p # ps) = (c = p \<and> has_prefix cs ps)"

fun contains :: "string \<Rightarrow> string \<Rightarrow> bool" where
  "contains [] sub = (sub = [])"
| "contains (c # cs) sub = (has_prefix (c # cs) sub \<or> contains cs sub)"

definition MustCompile :: "piece list \<Rightarrow> Regexp" where
  "MustCompile ps =
     \<lparr> expr = concat (map piece_source ps),
       FindStringSubmatch = (\<lambda>s.
         if contains s (concat (map piece_text ps))
         then concat (map piece_text ps) # piece_groups ps else []) \<rparr>"

subsection \<open>Ranging over a string\<close>

text \<open>
  \<^verbatim>\<open>for _, char := range data\<close> decodes \<^verbatim>\<open>data\<close> as UTF-8, one rune per step, as
  \<^verbatim>\<open>utf8.DecodeRuneInString\<close> does: a byte that does not start a well-formed encoding
  yields \<^verbatim>\<open>RuneError\<close> (U+FFFD) and is one byte wide. A rune is its code point.
\<close>

definition RuneError :: nat where
  "RuneError = 65533"

definition byte :: "char \<Rightarrow> nat" where
  "byte c = of_char c"

text \<open>The range accepted for the second byte, by first byte.\<close>

definition acceptRange :: "nat \<Rightarrow> nat \<times> nat" where
  "acceptRange s0 =
     (if s0 = 224 then (160, 191)
      else if s0 = 237 then (128, 159)
      else if s0 = 240 then (144, 191)
      else if s0 = 244 then (128, 143)
      else (128, 191))"

definition cont :: "nat \<Rightarrow> bool" where
  "cont b = (128 \<le> b \<and> b \<le> 191)"

text \<open>The rune at the head of a non-empty string and its width in bytes.\<close>

definition DecodeRuneInString :: "string \<Rightarrow> nat \<times> nat" where
  "DecodeRuneInString s =
     (case s of
        [] \<Rightarrow> (RuneError, 0)
      | c0 # s' \<Rightarrow>
         (let s0 = byte c0 in
          if s0 < 128 then (s0, 1)
          else if s0 < 194 \<or> 244 < s0 then (RuneError, 1)
          else
            (let sz = (if s0 < 224 then 2 else if s0 < 240 then 3 else (4::nat));
                 (lo, hi) = acceptRange s0
             in if length s < sz then (RuneError, 1)
                else
                  (let s1 = byte (s ! 1) in
                   if s1 < lo \<or> hi < s1 then (RuneError, 1)
                   else if sz \<le> 2 then ((s0 mod 32) * 64 + s1 mod 64, 2)
                   else
                     (let s2 = byte (s ! 2) in
                      if \<not> cont s2 then (RuneError, 1)
                      else if sz \<le> 3
                        then ((s0 mod 16) * 4096 + (s1 mod 64) * 64 + s2 mod 64, 3)
                      else
                        (let s3 = byte (s ! 3) in
                         if \<not> cont s3 then (RuneError, 1)
                         else ((s0 mod 8) * 262144 + (s1 mod 64) * 4096
                                 + (s2 mod 64) * 64 + s3 mod 64, 4)))))))"

function runes :: "string \<Rightarrow> nat list" where
  "runes s =
     (if s = [] then []
      else fst (DecodeRuneInString s) # runes (drop (snd (DecodeRuneInString s)) s))"
  by pat_completeness auto
termination
proof (relation "measure length")
  fix s :: string
  assume nonempty: "s \<noteq> []"
  then have "0 < snd (DecodeRuneInString s)"
    by (cases s) (auto simp: DecodeRuneInString_def Let_def split: prod.splits)
  with nonempty show "(drop (snd (DecodeRuneInString s)) s, s) \<in> measure length"
    by simp
qed simp

declare runes.simps [simp del]

section \<open>Entropy\<close>

text \<open>
  \<^verbatim>\<open>charCounts\<close> is a \<^verbatim>\<open>map[rune]int\<close>; it is kept as an association list with one
  entry per key, in order of first insertion. Go ranges over a map in no fixed order;
  the loop only accumulates a sum, which over \<open>real\<close> does not depend on the order.
\<close>

fun incr :: "(nat \<times> nat) list \<Rightarrow> nat \<Rightarrow> (nat \<times> nat) list" where
  "incr [] c = [(c, 1)]"
| "incr ((k, n) # m) c = (if k = c then (k, n + 1) # m else (k, n) # incr m c)"

definition charCounts :: "string \<Rightarrow> (nat \<times> nat) list" where
  "charCounts data = fold (\<lambda>char m. incr m char) (runes data) []"

definition shannonEntropy :: "string \<Rightarrow> real" where
  "shannonEntropy data =
     (if data = '''' then 0
      else
        (let invLength = 1 / real (length data)
         in fold (\<lambda>(_, count) entropy.
                    (let freq = real count * invLength
                     in entropy - freq * log 2 freq))
              (charCounts data) 0))"

section \<open>Formatting\<close>

text \<open>
  \<^verbatim>\<open>fmt.Sprintf("%.2f", x)\<close> prints \<open>x\<close> rounded to two decimals (a tie goes to the even
  neighbour), with a minus sign for a negative \<open>x\<close>; \<^verbatim>\<open>strings.Join\<close> puts the separator
  between consecutive elements.
\<close>

definition digit :: "nat \<Rightarrow> char" where
  "digit d = ''0123456789'' ! d"

fun Itoa :: "nat \<Rightarrow> string" where
  "Itoa n = (if n < 10 then [digit n] else Itoa (n div 10) @ [digit (n mod 10)])"

declare Itoa.simps [simp del]

definition round_half_even :: "real \<Rightarrow> int" where
  "round_half_even x =
     (let f = \<lfloor>x\<rfloor>; d = x - of_int f
      in if d < 1 / 2 then f
         else if 1 / 2 < d then f + 1
         else if even f then f else f + 1)"

definition Sprintf_2f :: "real \<Rightarrow> string" where
  "Sprintf_2f x =
     (let n = nat (round_half_even (\<bar>x\<bar> * 100))
      in (if x < 0 then ''-'' else '''')
           @ Itoa (n div 100) @ ''.'' @ [digit (n div 10 mod 10), digit (n mod 10)])"

fun Join :: "string list \<Rightarrow> string \<Rightarrow> string" where
  "Join [] sep = ''''"
| "Join [x] sep = x"
| "Join (x # y # zs) sep = x @ sep @ Join (y # zs) sep"

section \<open>Paths\<close>


section \<open>Rules\<close>

text \<open>
  Modelled from the spec: the types \<^verbatim>\<open>Entropy\<close> and \<^verbatim>\<open>AllowList\<close>, which package \<^verbatim>\<open>config\<close>
  declares outside \<^verbatim>\<open>rule.go\<close>. An entropy constraint is a capture group index with a
  minimum and a maximum entropy; an allowlist holds regexes for content, for file names
  and for paths, and commits. The types of the fields are those that \<^verbatim>\<open>rule.go\<close> needs:
  \<^verbatim>\<open>e.Group\<close> is compared with \<^verbatim>\<open>len(groups)\<close> and indexes \<^verbatim>\<open>groups\<close>, so it is an \<^verbatim>\<open>int\<close>;
  \<^verbatim>\<open>e.Min\<close> and \<^verbatim>\<open>e.Max\<close> are compared with a \<^verbatim>\<open>float64\<close>; \<^verbatim>\<open>AllowList.Regexes\<close> is passed to
  \<^verbatim>\<open>anyRegexMatch\<close>, so it is a slice of \<^verbatim>\<open>*regexp.Regexp\<close>.
\<close>

record Entropy =
  Min_entropy :: real
  Max_entropy :: real
  Group :: int

record AllowList =
  Regexes :: "Regexp option list"
  Files :: "Regexp option list"
  Paths :: "Regexp option list"
  Commits :: "string list"

record Rule =
  Description :: string
  Regex :: "Regexp option"
  File :: "Regexp option"
  Path :: "Regexp option"
  ReportGroup :: int
  Tags :: "string list"
  AllowList :: AllowList
  Entropies :: "Entropy list"

definition regexMatched :: "string \<Rightarrow> Regexp option \<Rightarrow> bool" where
  "regexMatched f re =
     (case re of
        None \<Rightarrow> False
      | Some re' \<Rightarrow> if FindString re' f \<noteq> '''' then True else False)"

fun anyRegexMatch :: "string \<Rightarrow> Regexp option list \<Rightarrow> bool" where
  "anyRegexMatch f [] = False"
| "anyRegexMatch f (re # res) = (if regexMatched f re then True else anyRegexMatch f res)"



definition RegexAllowed :: "Rule \<Rightarrow> string \<Rightarrow> bool" where
  "RegexAllowed r content = anyRegexMatch content (Regexes (AllowList r))"

text \<open>The loop of \<^verbatim>\<open>CheckEntropies\<close> over \<^verbatim>\<open>r.Entropies\<close>.\<close>

fun CheckEntropies_range :: "Entropy list \<Rightarrow> string list \<Rightarrow> panic + bool" where
  "CheckEntropies_range [] groups = Inr False"
| "CheckEntropies_range (e # es) groups =
     (if int (length groups) > Group e then
        (case index groups (Group e) of
           Inl p \<Rightarrow> Inl p
         | Inr g \<Rightarrow>
            (let entropy = shannonEntropy g
             in if entropy \<ge> Min_entropy e \<and> entropy \<le> Max_entropy e then Inr True
                else CheckEntropies_range es groups))
      else CheckEntropies_range es groups)"

definition CheckEntropies :: "Rule \<Rightarrow> string list \<Rightarrow> panic + bool" where
  "CheckEntropies r groups = CheckEntropies_range (Entropies r) groups"

definition ComputeEntropy :: "Rule \<Rightarrow> string list \<Rightarrow> string" where
  "ComputeEntropy r groups =
     Join (map (\<lambda>group. Sprintf_2f (shannonEntropy group)) groups) '', ''"

text \<open>
  \<^verbatim>\<open>Inspect\<close> returns the pair (offender, entropy). \<^verbatim>\<open>r.Regex\<close> is dereferenced without
  a nil check, and \<^verbatim>\<open>CheckEntropies\<close> is only called when there are constraints
  (\<^verbatim>\<open>&&\<close> evaluates its right operand only if the left one is true).
\<close>

definition Inspect :: "Rule \<Rightarrow> string \<Rightarrow> panic + (string \<times> string)" where
  "Inspect r line =
     (case Regex r of
        None \<Rightarrow> Inl NilPointerDereference
      | Some re \<Rightarrow>
         (let offender = FindString re line in
          if offender = '''' then Inr ('''', '''')
          else if RegexAllowed r line then Inr ('''', '''')
          else
            (let groups = FindStringSubmatch re offender in
             case (if length (Entropies r) > 0 then CheckEntropies r groups else Inr True) of
               Inl p \<Rightarrow> Inl p
             | Inr passed \<Rightarrow>
                 if length (Entropies r) > 0 \<and> \<not> passed then Inr ('''', '''')
                 else
                   (let entropy = ComputeEntropy r groups in
                    if 0 < ReportGroup r \<and> ReportGroup r < int (length groups) then
                      (case index groups (ReportGroup r) of
                         Inl p \<Rightarrow> Inl p
                       | Inr g \<Rightarrow> Inr (g, entropy))
                    else Inr (offender, entropy)))))"




section \<open>The GitLab host\<close>

text \<open>
  The GitLab client is a collaborator: a call returns the items of a page, a response
  carrying the pagination fields (or \<^verbatim>\<open>nil\<close>) and an error (or \<^verbatim>\<open>nil\<close>). What it answers
  may depend on the request and on how many requests were made before, which is the
  first argument of each call below.
\<close>

record ListOptions =
  PerPage :: int
  Page :: int

record Response =
  TotalPages :: int
  NextPage :: int
  CurrentPage :: int

record Project =
  Name :: string
  HTTPURLToRepo :: string
  ForkedFromProject :: "string option"

record Options =
  User :: string
  Organization :: string
  ExcludeForks :: bool

type_synonym 'a reply = "'a list \<times> Response option \<times> string option"

record Diff =
  Diff :: string
  NewPath :: string

record Client =
  ListUserProjects :: "nat \<Rightarrow> string \<Rightarrow> ListOptions \<Rightarrow> Project reply"
  ListGroupProjects :: "nat \<Rightarrow> string \<Rightarrow> ListOptions \<Rightarrow> Project reply"
  GetCommitDiff :: "nat \<Rightarrow> string \<Rightarrow> string \<Rightarrow> ListOptions \<Rightarrow> Diff reply"

text \<open>
  One pass through the body of a \<^verbatim>\<open>for { ... }\<close> loop ends in \<^verbatim>\<open>break\<close>, goes round again,
  or panics. A loop is run with fuel: \<open>Returned\<close> when it left the loop, \<open>Running\<close> with
  the state reached when the fuel is used up and the loop is still going.
\<close>

datatype 's step = Break 's | Again 's | Panic panic

datatype 's outcome = Returned 's | Running 's | Panicked panic

subsection \<open>Listing the projects in \<^verbatim>\<open>Scan\<close>\<close>

text \<open>
  The variables of the listing loop, with the requests sent so far and the errors
  logged. \<^verbatim>\<open>listOpts\<close> is built once before the loop, from \<^verbatim>\<open>page\<close> when it is 1, and
  nothing assigns to it afterwards.
\<close>

record ScanState =
  page :: int
  projects :: "Project list"
  resp :: "Response option"
  err :: "string option"
  requests :: "ListOptions list"
  logged :: "string list"

definition Scan_list ::
  "Options \<Rightarrow> Client \<Rightarrow> ListOptions \<Rightarrow> ScanState \<Rightarrow> Project list \<times> ScanState" where
  "Scan_list opts client listOpts st =
     (if User opts \<noteq> '''' then
        (case ListUserProjects client (length (requests st)) (User opts) listOpts of
           (ps, rp, e) \<Rightarrow>
             (ps, st\<lparr>resp := rp, err := e, requests := requests st @ [listOpts]\<rparr>))
      else if Organization opts \<noteq> '''' then
        (case ListGroupProjects client (length (requests st)) (Organization opts) listOpts of
           (ps, rp, e) \<Rightarrow>
             (ps, st\<lparr>resp := rp, err := e, requests := requests st @ [listOpts]\<rparr>))
      else ([], st))"

text \<open>
  \<open>Scan_list\<close> is the request at the head of the loop body: it returns \<^verbatim>\<open>_projects\<close>, the
  items of this page (none when neither a user nor an organization is given, in which
  case \<^verbatim>\<open>resp\<close> and \<^verbatim>\<open>err\<close> keep their values). \<open>Scan_body\<close> logs the error, appends the
  projects that are kept and decides whether the loop goes on.
\<close>

definition Scan_body :: "Options \<Rightarrow> Client \<Rightarrow> ListOptions \<Rightarrow> ScanState \<Rightarrow> ScanState step" where
  "Scan_body opts client listOpts st =
     (case Scan_list opts client listOpts st of
        (ps, st1) \<Rightarrow>
          (let st2 = st1\<lparr>logged := (case err st1 of None \<Rightarrow> logged st1
                                       | Some e \<Rightarrow> logged st1 @ [e])\<rparr>;
               st3 = st2\<lparr>projects := projects st2
                          @ filter (\<lambda>p. \<not> (ExcludeForks opts \<and> ForkedFromProject p \<noteq> None)) ps\<rparr>
           in case resp st3 of
                None \<Rightarrow> Break st3
              | Some rp \<Rightarrow> if page st3 \<ge> TotalPages rp then Break st3
                           else Again (st3\<lparr>page := NextPage rp\<rparr>)))"

fun Scan_loop :: "nat \<Rightarrow> Options \<Rightarrow> Client \<Rightarrow> ListOptions \<Rightarrow> ScanState \<Rightarrow> ScanState outcome" where
  "Scan_loop 0 opts client listOpts st = Running st"
| "Scan_loop (Suc fuel) opts client listOpts st =
     (case Scan_body opts client listOpts st of
        Break st' \<Rightarrow> Returned st'
      | Again st' \<Rightarrow> Scan_loop fuel opts client listOpts st'
      | Panic p \<Rightarrow> Panicked p)"

definition Scan_listing :: "nat \<Rightarrow> Options \<Rightarrow> Client \<Rightarrow> ScanState outcome" where
  "Scan_listing fuel opts client =
     (let page0 = 1;
          listOpts = \<lparr>PerPage = 100, Page = page0\<rparr>
      in Scan_loop fuel opts client listOpts
           \<lparr>page = page0, projects = [], resp = None, err = None, requests = [], logged = []\<rparr>)"

subsection \<open>The diff loop of \<^verbatim>\<open>ScanCommitURL\<close>\<close>

text \<open>
  The loop over the pages of a commit's diff; \<^verbatim>\<open>repoName\<close> and \<^verbatim>\<open>commitSha\<close> come from
  the commit URL. \<open>checked\<close> collects the diffs handed to \<^verbatim>\<open>repo.CheckRules\<close>.
\<close>

record DiffState =
  diffPage :: int
  checked :: "Diff list"
  diffRequests :: "ListOptions list"
  diffLogged :: "string list"

definition ScanCommitURL_body :: "Client \<Rightarrow> string \<Rightarrow> string \<Rightarrow> DiffState \<Rightarrow> DiffState step" where
  "ScanCommitURL_body client repoName commitSha st =
     (let opts = \<lparr>PerPage = 100, Page = diffPage st\<rparr>;
          st1 = st\<lparr>diffRequests := diffRequests st @ [opts]\<rparr>
      in case GetCommitDiff client (length (diffRequests st)) repoName commitSha opts of
           (ds, diffResp, diffErr) \<Rightarrow>
             (case diffErr of
                Some e \<Rightarrow> Again (st1\<lparr>diffLogged := diffLogged st1 @ [e]\<rparr>)
              | None \<Rightarrow>
                 (let st2 = st1\<lparr>checked := checked st1 @ ds\<rparr>
                  in case diffResp of
                       None \<Rightarrow> Panic NilPointerDereference
                     | Some rp \<Rightarrow>
                         if CurrentPage rp \<ge> TotalPages rp then Break st2
                         else Again (st2\<lparr>diffPage := NextPage rp\<rparr>))))"

fun ScanCommitURL_loop ::
  "nat \<Rightarrow> Client \<Rightarrow> string \<Rightarrow> string \<Rightarrow> DiffState \<Rightarrow> DiffState outcome" where
  "ScanCommitURL_loop 0 client repoName commitSha st = Running st"
| "ScanCommitURL_loop (Suc fuel) client repoName commitSha st =
     (case ScanCommitURL_body client repoName commitSha st of
        Break st' \<Rightarrow> Returned st'
      | Again st' \<Rightarrow> ScanCommitURL_loop fuel client repoName commitSha st'
      | Panic p \<Rightarrow> Panicked p)"

definition ScanCommitURL_diffs :: "nat \<Rightarrow> Client \<Rightarrow> string \<Rightarrow> string \<Rightarrow> DiffState outcome" where
  "ScanCommitURL_diffs fuel client repoName commitSha =
     ScanCommitURL_loop fuel client repoName commitSha
       \<lparr>diffPage = 1, checked = [], diffRequests = [], diffLogged = []\<rparr>"

section \<open>Reference notions\<close>

text \<open>
  The entropy as the specification words it: Shannon entropy over the code points of the
  string, every frequency being a number of occurrences divided by the number of code
  points.
\<close>

definition entropy_spec :: "string \<Rightarrow> real" where
  "entropy_spec s =
     (if s = '''' then 0
      else
        (let cps = runes s
         in \<Sum>c\<leftarrow>remdups cps.
              - (real (count_list cps c) / real (length cps))
                * log 2 (real (count_list cps c) / real (length cps))))"


text \<open>The count stored for a key of \<^verbatim>\<open>charCounts\<close>, 0 for a key that is not there.\<close>

definition count_in :: "(nat \<times> nat) list \<Rightarrow> nat \<Rightarrow> nat" where
  "count_in m k = (case map_of m k of None \<Rightarrow> 0 | Some n \<Rightarrow> n)"

section \<open>Concrete inputs\<close>

definition no_allowlist :: AllowList where
  "no_allowlist = \<lparr>Regexes = [], Files = [], Paths = [], Commits = []\<rparr>"

text \<open>The rule \<^verbatim>\<open>pass\<close> with the allowlist regex \<^verbatim>\<open>test\<close>.\<close>

definition rule_pass :: Rule where
  "rule_pass =
     \<lparr>Description = ''password'', Regex = Some (MustCompile [Lit ''pass'']),
      File = None, Path = None, ReportGroup = 0, Tags = [],
      AllowList = no_allowlist\<lparr>Regexes := [Some (MustCompile [Lit ''test''])]\<rparr>,
      Entropies = []\<rparr>"

text \<open>
  The rule \<^verbatim>\<open>k=(ab)\<close> reporting group 1, without entropy constraints and with two of them:
  the first is not met by the whole match (entropy 2), the second is met by group 1
  (entropy 1) at both of its bounds.
\<close>

definition rule_key :: Rule where
  "rule_key =
     \<lparr>Description = ''key'', Regex = Some (MustCompile [Lit ''k='', Cap ''ab'']),
      File = None, Path = None, ReportGroup = 1, Tags = [],
      AllowList = no_allowlist, Entropies = []\<rparr>"


text \<open>The same rule with one constraint, on group \<open>-1\<close>.\<close>

definition rule_key_negative :: Rule where
  "rule_key_negative =
     rule_key\<lparr>Entropies := [\<lparr>Min_entropy = 0, Max_entropy = 8, Group = - 1\<rparr>]\<rparr>"


text \<open>The string \<^verbatim>\<open>U+00E9\<close> (e with acute accent): one code point, two bytes in UTF-8.\<close>

definition e_acute :: string where
  "e_acute = [CHR 0xC3, CHR 0xA9]"

text \<open>
  A host that serves \<open>pages\<close> pages: asked for page \<open>p\<close> it returns the items of page \<open>p\<close>,
  the total number of pages and the number of the next page (0 after the last one), as
  the GitLab API does, whatever was asked before.
\<close>

definition paged_reply :: "int \<Rightarrow> (int \<Rightarrow> 'a list) \<Rightarrow> ListOptions \<Rightarrow> 'a reply" where
  "paged_reply pages items lo =
     (items (Page lo),
      Some \<lparr>TotalPages = pages,
            NextPage = (if Page lo < pages then Page lo + 1 else 0),
            CurrentPage = Page lo\<rparr>,
      None)"

definition gitlab_server :: "int \<Rightarrow> (int \<Rightarrow> Project list) \<Rightarrow> Client" where
  "gitlab_server pages items =
     \<lparr>ListUserProjects = (\<lambda>n user lo. paged_reply pages items lo),
      ListGroupProjects = (\<lambda>n group lo. paged_reply pages items lo),
      GetCommitDiff = (\<lambda>n repo sha lo. paged_reply 1 (\<lambda>p. []) lo)\<rparr>"

definition user_opts :: Options where
  "user_opts = \<lparr>User = ''u'', Organization = '''', ExcludeForks = False\<rparr>"

definition first_page :: ListOptions where
  "first_page = \<lparr>PerPage = 100, Page = 1\<rparr>"

text \<open>
  A host whose diff of a commit has \<open>pages\<close> pages and that fails every request for page
  \<open>bad\<close> of it.
\<close>

definition failing_page :: "int \<Rightarrow> int \<Rightarrow> (int \<Rightarrow> Diff list) \<Rightarrow> Client" where
  "failing_page bad pages items =
     \<lparr>ListUserProjects = (\<lambda>n user lo. ([], None, None)),
      ListGroupProjects = (\<lambda>n group lo. ([], None, None)),
      GetCommitDiff = (\<lambda>n repo sha lo.
         if Page lo = bad then ([], None, Some ''500 Internal Server Error'')
         else paged_reply pages items lo)\<rparr>"

definition diff_page :: "int \<Rightarrow> ListOptions" where
  "diff_page p = \<lparr>PerPage = 100, Page = p\<rparr>"

section \<open>Properties of the entropy\<close>

lemma runes_Nil: "runes [] = []"
  by (simp add: runes.simps)

lemma runes_ascii: "byte c < 128 \<Longrightarrow> runes (c # cs) = byte c # runes cs"
  by (subst runes.simps) (simp add: DecodeRuneInString_def)

lemma runes_single_byte: "\<forall>c\<in>set s. byte c < 128 \<Longrightarrow> runes s = map byte s"
  by (induction s) (auto simp: runes_Nil runes_ascii)

lemma runes_e_acute: "runes e_acute = [233]"
  unfolding e_acute_def
  by (subst runes.simps) (simp add: DecodeRuneInString_def byte_def acceptRange_def runes_Nil)

lemma log2_half: "log 2 (1 / 2) = - 1"
  by (simp add: log_divide)

lemma log2_quarter: "log 2 (1 / 4) = - 2"
proof -
  have "log 2 4 = log 2 (2 ^ 2)" by simp
  also have "\<dots> = 2" by (subst log_nat_power) simp_all
  finally show ?thesis by (simp add: log_divide)
qed

text \<open>
  C9. The three anchor values of the entropy function: the empty string has entropy 0,
  \<^verbatim>\<open>"aaaa"\<close> has entropy 0 and \<^verbatim>\<open>"ab"\<close> has entropy 1.
\<close>

theorem shannonEntropy_anchors:
  "shannonEntropy '''' = 0 \<and> shannonEntropy ''aaaa'' = 0 \<and> shannonEntropy ''ab'' = 1"
  by (simp add: shannonEntropy_def charCounts_def runes_ascii runes_Nil byte_def log2_half)

subsection \<open>What the loops of \<^verbatim>\<open>shannonEntropy\<close> compute\<close>

lemma incr_keys: "fst ` set (incr m c) = insert c (fst ` set m)"
  by (induction m c rule: incr.induct) auto

lemma incr_distinct: "distinct (map fst m) \<Longrightarrow> distinct (map fst (incr m c))"
  by (induction m c rule: incr.induct) (auto simp: incr_keys)

lemma incr_map_of:
  "map_of (incr m c) = (map_of m)(c \<mapsto> (case map_of m c of None \<Rightarrow> 1 | Some n \<Rightarrow> n + 1))"
  by (induction m c rule: incr.induct) (auto simp: fun_eq_iff)

lemma count_in_incr: "count_in (incr m c) k = (if k = c then 1 else 0) + count_in m k"
  by (auto simp: count_in_def incr_map_of split: option.splits)

text \<open>After the first loop the map holds, for every rune of the string, how often it occurs.\<close>

lemma fold_incr:
  "distinct (map fst m) \<Longrightarrow>
   distinct (map fst (fold (\<lambda>c m. incr m c) cs m))
   \<and> fst ` set (fold (\<lambda>c m. incr m c) cs m) = set cs \<union> fst ` set m
   \<and> (\<forall>k. count_in (fold (\<lambda>c m. incr m c) cs m) k = count_list cs k + count_in m k)"
proof (induction cs arbitrary: m)
  case Nil
  then show ?case by simp
next
  case (Cons c cs)
  have "distinct (map fst (incr m c))"
    using Cons.prems by (rule incr_distinct)
  from Cons.IH[OF this] show ?case
    by (auto simp: incr_keys count_in_incr)
qed

lemma fold_minus:
  "fold (\<lambda>(k, n) (acc::real). acc - g n) m a = a - (\<Sum>(k, n)\<leftarrow>m. g n)"
  by (induction m arbitrary: a) (auto simp: algebra_simps)

lemma sum_list_assoc:
  "distinct (map fst m) \<Longrightarrow>
   (\<Sum>(k, n)\<leftarrow>m. (g n :: real)) = (\<Sum>k\<in>fst ` set m. g (count_in m k))"
proof (induction m)
  case Nil
  then show ?case by simp
next
  case (Cons a m)
  obtain k n where a: "a = (k, n)" by (cases a)
  have notin: "k \<notin> fst ` set m" using Cons.prems a by auto
  have "(\<Sum>k'\<in>fst ` set m. g (count_in ((k, n) # m) k')) = (\<Sum>k'\<in>fst ` set m. g (count_in m k'))"
    by (rule sum.cong) (use notin in \<open>auto simp: count_in_def\<close>)
  then show ?case
    using Cons notin a by (simp add: count_in_def)
qed

text \<open>
  The value returned for a non-empty string: every rune of the string contributes with
  its number of occurrences divided by the number of bytes of the string.
\<close>

lemma shannonEntropy_bytes:
  assumes "data \<noteq> ''''"
  shows "shannonEntropy data =
           (\<Sum>c\<leftarrow>remdups (runes data).
              - (real (count_list (runes data) c) / real (length data))
                * log 2 (real (count_list (runes data) c) / real (length data)))"
proof -
  let ?g = "\<lambda>n. (real n * (1 / real (length data))) * log 2 (real n * (1 / real (length data)))"
  have f: "distinct (map fst (charCounts data))"
    "fst ` set (charCounts data) = set (runes data)"
    "\<And>k. count_in (charCounts data) k = count_list (runes data) k"
    using fold_incr[of "[]" "runes data"] by (auto simp: charCounts_def count_in_def)
  have "shannonEntropy data = 0 - (\<Sum>(k, n)\<leftarrow>charCounts data. ?g n)"
    using assms by (simp add: shannonEntropy_def Let_def fold_minus[symmetric])
  also have "\<dots> = - (\<Sum>k\<in>set (runes data). ?g (count_list (runes data) k))"
    using sum_list_assoc[OF f(1), of ?g] by (simp add: f)
  also have "\<dots> = (\<Sum>k\<leftarrow>remdups (runes data). - ?g (count_list (runes data) k))"
    by (simp add: sum_list_distinct_conv_sum_set sum_negf)
  finally show ?thesis by simp
qed

text \<open>On a string of bytes below 128 the code returns the entropy of the specification.\<close>

lemma shannonEntropy_ascii:
  assumes "\<forall>c\<in>set s. byte c < 128"
  shows "shannonEntropy s = entropy_spec s"
proof (cases "s = ''''")
  case True
  then show ?thesis by (simp add: shannonEntropy_def entropy_spec_def)
next
  case False
  have "length (runes s) = length s" using assms by (simp add: runes_single_byte)
  then show ?thesis
    using False shannonEntropy_bytes[OF False] by (simp add: entropy_spec_def Let_def)
qed

text \<open>
  C2. The entropy is Shannon entropy over the code points of the string, the frequency
  of a code point being its number of occurrences divided by the number of code points.
  The code counts code points and divides by \<^verbatim>\<open>len(data)\<close>, the number of bytes: the
  string \<^verbatim>\<open>U+00E9\<close> is one code point in two bytes, the specified entropy is 0 and the
  code returns 1/2.
\<close>

theorem shannonEntropy_divides_by_bytes:
  "runes e_acute = [233] \<and> length e_acute = 2
   \<and> shannonEntropy e_acute = 1 / 2 \<and> entropy_spec e_acute = 0"
  by (simp add: shannonEntropy_def charCounts_def entropy_spec_def runes_e_acute)
    (simp add: e_acute_def log2_half)

section \<open>Properties of \<^verbatim>\<open>Inspect\<close>\<close>

lemmas eval_regexp =
  MustCompile_def FindString_def RegexAllowed_def regexMatched_def no_allowlist_def

lemmas eval_entropy =
  shannonEntropy_def charCounts_def runes_ascii runes_Nil byte_def log2_half log2_quarter

lemmas eval_format =
  ComputeEntropy_def Sprintf_2f_def round_half_even_def Itoa.simps digit_def

lemma shannonEntropy_k_ab: "shannonEntropy ''k=ab'' = 2"
  by (simp add: eval_entropy)

lemma shannonEntropy_ab: "shannonEntropy ''ab'' = 1"
  by (simp add: eval_entropy)

lemma shannonEntropy_pass: "shannonEntropy ''pass'' = 3 / 2"
  by (simp add: eval_entropy)

lemma Sprintf_2f_values:
  "Sprintf_2f 2 = ''2.00''" "Sprintf_2f 1 = ''1.00''" "Sprintf_2f (3 / 2) = ''1.50''"
  by (simp_all add: eval_format)

lemma ComputeEntropy_k_ab: "ComputeEntropy r [''k=ab'', ''ab''] = ''2.00, 1.00''"
  by (simp add: ComputeEntropy_def shannonEntropy_k_ab shannonEntropy_ab Sprintf_2f_values)

lemma FindString_key: "FindString (MustCompile [Lit ''k='', Cap ''ab'']) ''x k=ab y'' = ''k=ab''"
  by (simp add: eval_regexp)

lemma FindStringSubmatch_key:
  "FindStringSubmatch (MustCompile [Lit ''k='', Cap ''ab'']) ''k=ab'' = [''k=ab'', ''ab'']"
  by (simp add: eval_regexp)

subsection \<open>The allowlist\<close>

text \<open>
  C1. Allowlist suppression is decided by the matched substring: an allowlist regex that
  matches another part of the line, and not the matched substring, does not suppress the
  finding. The code passes the whole line to \<^verbatim>\<open>RegexAllowed\<close>: on the line
  \<^verbatim>\<open>test: pass\<close> the rule \<^verbatim>\<open>pass\<close> with the allowlist regex \<^verbatim>\<open>test\<close> matches \<^verbatim>\<open>pass\<close>, which
  the allowlist does not match, and \<^verbatim>\<open>Inspect\<close> returns no finding; without the allowlist
  it reports \<^verbatim>\<open>pass\<close>.
\<close>

theorem Inspect_allowlist_reads_line:
  "FindString (MustCompile [Lit ''pass'']) ''test: pass'' = ''pass''
   \<and> \<not> RegexAllowed rule_pass ''pass''
   \<and> RegexAllowed rule_pass ''test: pass''
   \<and> Inspect rule_pass ''test: pass'' = Inr ('''', '''')
   \<and> Inspect (rule_pass\<lparr>AllowList := no_allowlist\<rparr>) ''test: pass'' = Inr (''pass'', ''1.50'')"
proof -
  have "ComputeEntropy r [''pass''] = ''1.50''" for r
    by (simp add: ComputeEntropy_def shannonEntropy_pass Sprintf_2f_values)
  then show ?thesis
    by (simp add: Inspect_def rule_pass_def eval_regexp)
qed

subsection \<open>Entropy constraints\<close>


text \<open>
  A constraint on a group index at or beyond the number of groups is passed over; when
  all of them are, the check fails and \<^verbatim>\<open>Inspect\<close> returns no finding.
\<close>

lemma CheckEntropies_range_beyond:
  "\<forall>e\<in>set es. int (length groups) \<le> Group e \<Longrightarrow> CheckEntropies_range es groups = Inr False"
  by (induction es) auto

lemma Itoa_nonempty: "Itoa n \<noteq> []"
  by (subst Itoa.simps) simp


text \<open>
  A printed value ends in a point and two decimal digits, and the number printed is
  within half a hundredth of the value.
\<close>

lemma Sprintf_2f_two_decimals:
  "\<exists>ip d1 d2. d1 < 10 \<and> d2 < 10 \<and> Sprintf_2f x = ip @ ''.'' @ [digit d1, digit d2]"
proof -
  let ?n = "nat (round_half_even (\<bar>x\<bar> * 100))"
  have "?n div 10 mod 10 < 10" and "?n mod 10 < 10" by simp_all
  then show ?thesis
    unfolding Sprintf_2f_def Let_def by (metis append_assoc)
qed

lemma round_half_even_close: "\<bar>real_of_int (round_half_even y) - y\<bar> \<le> 1 / 2"
  unfolding round_half_even_def Let_def by (auto simp: abs_if) linarith+




lemma Inspect_suppressed:
  assumes "Regex r = Some re" and "FindString re line \<noteq> ''''" and "\<not> RegexAllowed r line"
    and "groups = FindStringSubmatch re (FindString re line)"
    and "Entropies r \<noteq> []" and "CheckEntropies r groups = Inr False"
  shows "Inspect r line = Inr ('''', '''')"
  using assms by (auto simp: Inspect_def Let_def)

lemma Inspect_groups_beyond:
  assumes "Regex r = Some re" and "FindString re line \<noteq> ''''" and "\<not> RegexAllowed r line"
    and "groups = FindStringSubmatch re (FindString re line)"
    and "Entropies r \<noteq> []" and "\<forall>e\<in>set (Entropies r). int (length groups) \<le> Group e"
  shows "Inspect r line = Inr ('''', '''')"
  using assms(1-5)
proof (rule Inspect_suppressed)
  show "CheckEntropies r groups = Inr False"
    unfolding CheckEntropies_def using assms(6) by (rule CheckEntropies_range_beyond)
qed



text \<open>
  C10. A constraint whose group index is out of range for the list of groups is skipped
  without a panic and counts as not met. The guard of \<^verbatim>\<open>CheckEntropies\<close> is
  \<^verbatim>\<open>len(groups) > e.Group\<close>, which a negative index passes: with the single constraint on
  group \<open>-1\<close>, \<^verbatim>\<open>groups[e.Group]\<close> is evaluated and panics, where \<^verbatim>\<open>Inspect\<close> guards
  \<^verbatim>\<open>ReportGroup\<close> from both sides.
\<close>

theorem CheckEntropies_negative_group_panics:
  "CheckEntropies rule_key_negative [''k=ab'', ''ab''] = Inl IndexOutOfRange
   \<and> Inspect rule_key_negative ''x k=ab y'' = Inl IndexOutOfRange
   \<and> Inspect (rule_key_negative\<lparr>ReportGroup := - 1\<rparr>\<lparr>Entropies := []\<rparr>) ''x k=ab y''
       = Inr (''k=ab'', ''2.00, 1.00'')"
  by (simp add: Inspect_def CheckEntropies_def rule_key_negative_def rule_key_def index_def
      RegexAllowed_def no_allowlist_def FindString_key FindStringSubmatch_key ComputeEntropy_k_ab)

subsection \<open>The offender and the entropy report\<close>

text \<open>
  C4. For a matching line that survives the allowlist and the entropy constraints, the
  offender returned by \<^verbatim>\<open>Inspect\<close> is \<^verbatim>\<open>groups[ReportGroup]\<close> when
  \<^verbatim>\<open>0 < ReportGroup < len(groups)\<close> and the full match otherwise; the result is a value
  and never a panic, whatever \<^verbatim>\<open>ReportGroup\<close> is.
\<close>

theorem Inspect_offender:
  assumes "Regex r = Some re" and "FindString re line \<noteq> ''''" and "\<not> RegexAllowed r line"
    and "groups = FindStringSubmatch re (FindString re line)"
    and "Entropies r = [] \<or> CheckEntropies r groups = Inr True"
  shows "Inspect r line =
           Inr (if 0 < ReportGroup r \<and> ReportGroup r < int (length groups)
                then groups ! nat (ReportGroup r) else FindString re line,
                ComputeEntropy r groups)"
proof -
  have "index groups (ReportGroup r) = Inr (groups ! nat (ReportGroup r))"
    if "0 < ReportGroup r" and "ReportGroup r < int (length groups)"
    using that by (simp add: index_def)
  then show ?thesis
    using assms by (auto simp: Inspect_def Let_def)
qed

text \<open>
  The rule \<^verbatim>\<open>k=(ab)\<close> on the line \<^verbatim>\<open>x k=ab y\<close> reports group 1 when \<^verbatim>\<open>ReportGroup\<close> is 1.
\<close>

theorem Inspect_offender_witness:
  "Regex rule_key = Some (MustCompile [Lit ''k='', Cap ''ab''])
   \<and> FindString (MustCompile [Lit ''k='', Cap ''ab'']) ''x k=ab y'' \<noteq> ''''
   \<and> \<not> RegexAllowed rule_key ''x k=ab y''
   \<and> Entropies rule_key = []
   \<and> Inspect rule_key ''x k=ab y'' = Inr (''ab'', ''2.00, 1.00'')"
proof -
  let ?re = "MustCompile [Lit ''k='', Cap ''ab'']"
  have r: "Regex rule_key = Some ?re"
    by (simp add: rule_key_def)
  have m: "FindString ?re ''x k=ab y'' \<noteq> ''''"
    by (simp add: FindString_key)
  have a: "\<not> RegexAllowed rule_key ''x k=ab y''"
    by (simp add: rule_key_def eval_regexp)
  have g: "[''k=ab'', ''ab''] = FindStringSubmatch ?re (FindString ?re ''x k=ab y'')"
    by (simp add: FindString_key FindStringSubmatch_key)
  have e: "Entropies rule_key = []"
    by (simp add: rule_key_def)
  have "Inspect rule_key ''x k=ab y'' = Inr (''ab'', ''2.00, 1.00'')"
    using Inspect_offender[OF r m a g disjI1[OF e]]
    by (simp add: rule_key_def ComputeEntropy_k_ab)
  with r m a e show ?thesis by simp
qed

text \<open>
  A report group that does not exist (0, negative, or at or beyond the number of groups)
  gives the full match.
\<close>

lemma Inspect_report_group_out_of_range:
  "rg \<le> 0 \<or> 2 \<le> rg \<Longrightarrow>
   Inspect (rule_key\<lparr>ReportGroup := rg\<rparr>) ''x k=ab y'' = Inr (''k=ab'', ''2.00, 1.00'')"
  by (auto simp: Inspect_def rule_key_def RegexAllowed_def no_allowlist_def
      FindString_key FindStringSubmatch_key ComputeEntropy_k_ab)



section \<open>Properties of \<^verbatim>\<open>HasFileOrPathLeakOnly\<close>\<close>



section \<open>Properties of the GitLab host\<close>

subsection \<open>Listing the projects\<close>

text \<open>
  Against a host that serves four pages, every pass through the loop body sends the
  request for page 1 again, since \<^verbatim>\<open>listOpts.Page\<close> is never assigned; \<^verbatim>\<open>page\<close> becomes 2,
  the next page named by the answer to it, and stays below the total of 4.
\<close>

lemma Scan_body_four_pages:
  "page st = 1 \<or> page st = 2 \<Longrightarrow>
   \<exists>st'. Scan_body user_opts (gitlab_server 4 items) first_page st = Again st'
      \<and> page st' = 2 \<and> requests st' = requests st @ [first_page]"
  by (auto simp: Scan_body_def Scan_list_def user_opts_def gitlab_server_def paged_reply_def
      first_page_def Let_def)

lemma Scan_loop_four_pages:
  "page st = 1 \<or> page st = 2 \<Longrightarrow>
   \<exists>st'. Scan_loop fuel user_opts (gitlab_server 4 items) first_page st = Running st'
      \<and> requests st' = requests st @ replicate fuel first_page"
proof (induction fuel arbitrary: st)
  case 0
  then show ?case by simp
next
  case (Suc fuel)
  from Scan_body_four_pages[OF Suc.prems] obtain st1 where
    b: "Scan_body user_opts (gitlab_server 4 items) first_page st = Again st1"
    and p: "page st1 = 2" and r: "requests st1 = requests st @ [first_page]"
    by blast
  from Suc.IH[of st1] p obtain st' where
    "Scan_loop fuel user_opts (gitlab_server 4 items) first_page st1 = Running st'"
    "requests st' = requests st1 @ replicate fuel first_page"
    by blast
  then show ?case using b r by (simp add: replicate_app_Cons_same)
qed

text \<open>
  C6. The listing loop terminates for every behaviour of the host, and a host that
  reports more pages for pages 1 to 3 and none on page 4 is sent exactly 4 requests.
  Against the host that serves four pages, whatever their items, the loop of \<^verbatim>\<open>Scan\<close> is
  still running after any number of passes, and every request it has sent asks for
  page 1.
\<close>

theorem Scan_four_pages_never_returns:
  "\<exists>st. Scan_listing fuel user_opts (gitlab_server 4 items) = Running st
     \<and> requests st = replicate fuel \<lparr>PerPage = 100, Page = 1\<rparr>"
  using Scan_loop_four_pages[of "\<lparr>page = 1, projects = [], resp = None, err = None,
    requests = [], logged = []\<rparr>" fuel items]
  by (simp add: Scan_listing_def first_page_def)

text \<open>
  With a single page the loop returns after one request; with two pages it returns after
  two requests, both for page 1, and holds the items of page 1 twice.
\<close>

lemma Scan_single_page:
  "\<exists>st. Scan_listing (Suc fuel) user_opts (gitlab_server 1 items) = Returned st
     \<and> projects st = items 1 \<and> requests st = [first_page]"
  by (simp add: Scan_listing_def Scan_body_def Scan_list_def user_opts_def gitlab_server_def
      paged_reply_def first_page_def Let_def)

lemma Scan_two_pages:
  "\<exists>st. Scan_listing (Suc (Suc fuel)) user_opts (gitlab_server 2 items) = Returned st
     \<and> projects st = items 1 @ items 1 \<and> requests st = [first_page, first_page]"
  by (simp add: Scan_listing_def Scan_body_def Scan_list_def user_opts_def gitlab_server_def
      paged_reply_def first_page_def Let_def)

text \<open>
  The loop does return when the host answers the request number \<open>n\<close> as a request for
  page \<open>n + 1\<close>, whatever page the request names: four requests for four pages.
\<close>

lemma Scan_host_counting_requests:
  "\<exists>st. Scan_listing (Suc (Suc (Suc (Suc fuel)))) user_opts
           \<lparr>ListUserProjects = (\<lambda>n user lo. paged_reply 4 items (lo\<lparr>Page := int n + 1\<rparr>)),
            ListGroupProjects = (\<lambda>n group lo. ([], None, None)),
            GetCommitDiff = (\<lambda>n repo sha lo. ([], None, None))\<rparr> = Returned st
     \<and> projects st = items 1 @ items 2 @ items 3 @ items 4
     \<and> requests st = [first_page, first_page, first_page, first_page]"
  by (simp add: Scan_listing_def Scan_body_def Scan_list_def user_opts_def paged_reply_def
      first_page_def Let_def)

subsection \<open>The pages of a commit's diff\<close>

text \<open>
  Once the loop is at the page whose request fails, each pass logs the error and asks
  for the same page again.
\<close>

lemma ScanCommitURL_loop_stuck:
  "diffPage st = 2 \<Longrightarrow>
   ScanCommitURL_loop fuel (failing_page 2 3 items) repo sha st =
     Running (st\<lparr>diffRequests := diffRequests st @ replicate fuel (diff_page 2),
                 diffLogged := diffLogged st @ replicate fuel ''500 Internal Server Error''\<rparr>)"
proof (induction fuel arbitrary: st)
  case 0
  then show ?case by simp
next
  case (Suc fuel)
  have "ScanCommitURL_body (failing_page 2 3 items) repo sha st =
          Again (st\<lparr>diffRequests := diffRequests st @ [diff_page 2],
                   diffLogged := diffLogged st @ [''500 Internal Server Error'']\<rparr>)"
    using Suc.prems by (simp add: ScanCommitURL_body_def failing_page_def diff_page_def Let_def)
  then show ?case
    using Suc.IH[of "st\<lparr>diffRequests := diffRequests st @ [diff_page 2],
                   diffLogged := diffLogged st @ [''500 Internal Server Error'']\<rparr>"] Suc.prems
    by (simp add: replicate_app_Cons_same)
qed

text \<open>
  C7. A diff page whose fetch fails is logged and skipped, and the scan goes on with the
  remaining pages. In \<^verbatim>\<open>ScanCommitURL\<close> the \<^verbatim>\<open>continue\<close> after the log leaves \<^verbatim>\<open>diffPage\<close> as
  it is: when page 2 of 3 fails, the loop checks the diffs of page 1 and then asks for
  page 2 on every pass, logging one error per pass; it never returns and page 3 is never
  asked for.
\<close>

theorem ScanCommitURL_failed_page_retried_forever:
  "ScanCommitURL_diffs (Suc fuel) (failing_page 2 3 items) repo sha =
     Running \<lparr>diffPage = 2, checked = items 1,
              diffRequests = \<lparr>PerPage = 100, Page = 1\<rparr>
                # replicate fuel \<lparr>PerPage = 100, Page = 2\<rparr>,
              diffLogged = replicate fuel ''500 Internal Server Error''\<rparr>"
proof -
  have "ScanCommitURL_body (failing_page 2 3 items) repo sha
          \<lparr>diffPage = 1, checked = [], diffRequests = [], diffLogged = []\<rparr> =
        Again \<lparr>diffPage = 2, checked = items 1, diffRequests = [diff_page 1], diffLogged = []\<rparr>"
    by (simp add: ScanCommitURL_body_def failing_page_def paged_reply_def diff_page_def Let_def)
  then show ?thesis
    using ScanCommitURL_loop_stuck[of "\<lparr>diffPage = 2, checked = items 1,
      diffRequests = [diff_page 1], diffLogged = []\<rparr>" fuel items repo sha]
    by (simp add: ScanCommitURL_diffs_def diff_page_def)
qed

text \<open>When no request fails, the three pages are fetched and checked in order.\<close>

lemma ScanCommitURL_no_failure:
  "ScanCommitURL_diffs (Suc (Suc (Suc fuel))) (failing_page 0 3 items) repo sha =
     Returned \<lparr>diffPage = 3, checked = items 1 @ items 2 @ items 3,
              diffRequests = [diff_page 1, diff_page 2, diff_page 3],
              diffLogged = []\<rparr>"
  by (simp add: ScanCommitURL_diffs_def ScanCommitURL_body_def failing_page_def paged_reply_def
      diff_page_def Let_def)

text \<open>
  A failure that goes away is retried, not skipped: when only the first request for
  page 2 fails, page 2 is fetched by the next request and all three pages are checked.
\<close>

lemma ScanCommitURL_transient_failure:
  "ScanCommitURL_diffs (Suc (Suc (Suc (Suc fuel))))
     \<lparr>ListUserProjects = (\<lambda>n user lo. ([], None, None)),
      ListGroupProjects = (\<lambda>n group lo. ([], None, None)),
      GetCommitDiff = (\<lambda>n repo sha lo.
         if n = 1 then ([], None, Some ''timeout'') else paged_reply 3 items lo)\<rparr> repo sha =
     Returned \<lparr>diffPage = 3, checked = items 1 @ items 2 @ items 3,
              diffRequests = [diff_page 1, diff_page 2, diff_page 2, diff_page 3],
              diffLogged = [''timeout'']\<rparr>"
  by (simp add: ScanCommitURL_diffs_def ScanCommitURL_body_def paged_reply_def
      diff_page_def Let_def)

end
